theory Spec2Isabelle
  imports Main "HOL-Library.Multiset"
begin

section \<open>The document store\<close>

text \<open>
  The REST controllers (\<^verbatim>\<open>backend/controllers/chatControllers.js\<close> and the message
  controller) work on two Mongoose collections, \<^verbatim>\<open>Chat\<close> and \<^verbatim>\<open>Message\<close>. A collection is
  a list of documents in insertion order. Object ids are strings, as they travel in the
  JSON bodies; message text is a list of UTF-16 code units, as a JavaScript string is.

  The schema files are not part of the sources. The documents carry the fields the
  controllers read and write: \<^verbatim>\<open>_id\<close>, \<^verbatim>\<open>chatName\<close>, \<^verbatim>\<open>isGroupChat\<close>, \<^verbatim>\<open>users\<close>,
  \<^verbatim>\<open>groupAdmin\<close>, \<^verbatim>\<open>latestMessage\<close> and \<^verbatim>\<open>updatedAt\<close> (named by the sort of
  \<^verbatim>\<open>fetchChats\<close>) for a chat; \<^verbatim>\<open>_id\<close>, \<^verbatim>\<open>sender\<close>, \<^verbatim>\<open>content\<close>, \<^verbatim>\<open>chat\<close> and the creation
  timestamp for a message. References are kept as ids: \<^verbatim>\<open>populate\<close> only replaces an id
  by the document it names when a result is serialised, so a response holds the
  document with its references.
\<close>

type_synonym oid = string
type_synonym jstring = "nat list"

record chat_doc =
  chat_id :: oid
  chatName :: "string option"
  isGroupChat :: bool
  users :: "oid list"
  groupAdmin :: "oid option"
  latestMessage :: "oid option"
  updatedAt :: nat

record message_doc =
  message_id :: oid
  sender :: oid
  content :: jstring
  chat :: oid
  createdAt :: nat

record database =
  Chat :: "chat_doc list"
  Message :: "message_doc list"

definition empty_db :: database where
  "empty_db = \<lparr>Chat = [], Message = []\<rparr>"

text \<open>
  What a handler does with \<^verbatim>\<open>res\<close>: \<^verbatim>\<open>res.sendStatus(n)\<close>; \<^verbatim>\<open>res.status(n).send(x)\<close> or
  \<^verbatim>\<open>.json(x)\<close> (status 200 when none is set); or \<^verbatim>\<open>res.status(n)\<close> followed by
  \<^verbatim>\<open>throw new Error(msg)\<close>, which \<^verbatim>\<open>asyncHandler\<close> hands to the error middleware.
\<close>

datatype payload =
    PChat "chat_doc option"
  | PChats "chat_doc list"
  | PMessage "message_doc option"
  | PText string
  | PJsonMessage string

datatype response =
    SendStatus nat
  | Respond nat payload
  | Thrown nat string

text \<open>JavaScript truthiness of an optional string field: \<^verbatim>\<open>undefined\<close> and \<^verbatim>\<open>""\<close> are falsy.\<close>

definition truthy :: "'a list option \<Rightarrow> bool" where
  "truthy v = (case v of None \<Rightarrow> False | Some s \<Rightarrow> s \<noteq> [])"

subsection \<open>Mongoose operations\<close>

definition Chat_findOne :: "(chat_doc \<Rightarrow> bool) \<Rightarrow> database \<Rightarrow> chat_doc option" where
  "Chat_findOne P db = find P (Chat db)"

definition Chat_findById :: "oid \<Rightarrow> database \<Rightarrow> chat_doc option" where
  "Chat_findById i db = find (\<lambda>c. chat_id c = i) (Chat db)"

definition Message_findById :: "oid \<Rightarrow> database \<Rightarrow> message_doc option" where
  "Message_findById i db = find (\<lambda>m. message_id m = i) (Message db)"

text \<open>
  \<^verbatim>\<open>create\<close> inserts a document under a new \<^verbatim>\<open>_id\<close>. The id the driver generates is an
  argument of the model; an id that is already in the collection is the store's
  duplicate-key error, which the controllers' \<^verbatim>\<open>catch\<close> blocks receive.
\<close>

definition duplicate_key :: string where
  "duplicate_key = ''E11000 duplicate key error''"

definition Chat_create :: "chat_doc \<Rightarrow> database \<Rightarrow> string + database" where
  "Chat_create d db =
     (if chat_id d \<in> set (map chat_id (Chat db)) then Inl duplicate_key
      else Inr (db\<lparr>Chat := Chat db @ [d]\<rparr>))"

definition Message_create :: "message_doc \<Rightarrow> database \<Rightarrow> string + database" where
  "Message_create d db =
     (if message_id d \<in> set (map message_id (Message db)) then Inl duplicate_key
      else Inr (db\<lparr>Message := Message db @ [d]\<rparr>))"

fun update_first :: "('a \<Rightarrow> bool) \<Rightarrow> ('a \<Rightarrow> 'a) \<Rightarrow> 'a list \<Rightarrow> 'a list" where
  "update_first P f [] = []"
| "update_first P f (x # xs) = (if P x then f x # xs else x # update_first P f xs)"

text \<open>
  \<^verbatim>\<open>findByIdAndUpdate(id, update, { new: true })\<close> changes the one document with that id
  and returns it as updated, or returns \<^verbatim>\<open>null\<close>. The chat schema is not among the
  sources; the sort of \<^verbatim>\<open>fetchChats\<close> on \<^verbatim>\<open>updatedAt\<close> presupposes Mongoose's timestamps,
  under which a chat gets its \<^verbatim>\<open>updatedAt\<close> when it is created and every update of the chat
  sets it to the time of the write. A request is handled at one instant \<open>now\<close>.
\<close>

definition Chat_findByIdAndUpdate ::
  "oid \<Rightarrow> (chat_doc \<Rightarrow> chat_doc) \<Rightarrow> nat \<Rightarrow> database \<Rightarrow> database \<times> chat_doc option" where
  "Chat_findByIdAndUpdate i f now db =
     (case Chat_findById i db of
        None \<Rightarrow> (db, None)
      | Some c \<Rightarrow>
          (db\<lparr>Chat := update_first (\<lambda>c. chat_id c = i) (\<lambda>c. (f c)\<lparr>updatedAt := now\<rparr>) (Chat db)\<rparr>,
           Some ((f c)\<lparr>updatedAt := now\<rparr>)))"

section \<open>The chat controllers\<close>

text \<open>
  Every handler takes the store, the authenticated caller \<^verbatim>\<open>req.user._id\<close>, the fields of
  \<^verbatim>\<open>req.body\<close>, and, where it writes, the id the driver generates and the time of the
  request. It returns the store after the request and the response.
\<close>

definition accessChat ::
  "database \<Rightarrow> oid \<Rightarrow> oid option \<Rightarrow> oid \<Rightarrow> nat \<Rightarrow> database \<times> response" where
  "accessChat db me userId newId now =
     (if \<not> truthy userId then (db, SendStatus 400)
      else
        (case userId of
           None \<Rightarrow> (db, SendStatus 400)
         | Some u \<Rightarrow>
             (case Chat_findOne
                     (\<lambda>c. \<not> isGroupChat c \<and> me \<in> set (users c) \<and> u \<in> set (users c)) db of
                Some isChat \<Rightarrow> (db, Respond 200 (PChat (Chat_findById (chat_id isChat) db)))
              | None \<Rightarrow>
                  (case Chat_create
                          \<lparr>chat_id = newId, chatName = Some ''sender'', isGroupChat = False,
                           users = [me, u], groupAdmin = None, latestMessage = None,
                           updatedAt = now\<rparr> db of
                     Inl e \<Rightarrow> (db, Thrown 400 e)
                   | Inr db' \<Rightarrow> (db', Respond 200 (PChat (Chat_findById newId db')))))))"

definition fetchChats :: "database \<Rightarrow> oid \<Rightarrow> response" where
  "fetchChats db me =
     Respond 200
       (PChats (sort_key (\<lambda>c. - int (updatedAt c)) (filter (\<lambda>c. me \<in> set (users c)) (Chat db))))"

text \<open>
  \<^verbatim>\<open>req.body.users\<close> is the JSON text of an array of user ids; the model takes the array
  that \<^verbatim>\<open>JSON.parse\<close> yields (\<open>None\<close> when the field is absent). The text of an array is
  never the empty string, so the field is truthy exactly when it is present.
\<close>

definition createGroupChat ::
  "database \<Rightarrow> oid \<Rightarrow> oid list option \<Rightarrow> string option \<Rightarrow> oid \<Rightarrow> nat \<Rightarrow> database \<times> response" where
  "createGroupChat db me body_users body_name newId now =
     (case body_users of
        None \<Rightarrow> (db, Respond 400 (PJsonMessage ''Please fill all the fields''))
      | Some parsed \<Rightarrow>
          if \<not> truthy body_name
          then (db, Respond 400 (PJsonMessage ''Please fill all the fields''))
          else if length parsed < 2
          then (db, Respond 400 (PText ''At least 2 users are required to form a group chat''))
          else
            (case Chat_create
                    \<lparr>chat_id = newId, chatName = body_name, isGroupChat = True,
                     users = parsed @ [me], groupAdmin = Some me, latestMessage = None,
                     updatedAt = now\<rparr> db of
               Inl e \<Rightarrow> (db, Thrown 400 e)
             | Inr db' \<Rightarrow> (db', Respond 200 (PChat (Chat_findById newId db')))))"

definition renameGroup :: "database \<Rightarrow> oid \<Rightarrow> string \<Rightarrow> nat \<Rightarrow> database \<times> response" where
  "renameGroup db chatId newName now =
     (case Chat_findByIdAndUpdate chatId (\<lambda>c. c\<lparr>chatName := Some newName\<rparr>) now db of
        (db', None) \<Rightarrow> (db', Thrown 404 ''Chat not found'')
      | (db', Some updatedChat) \<Rightarrow> (db', Respond 200 (PChat (Some updatedChat))))"

definition removeFromGroup :: "database \<Rightarrow> oid \<Rightarrow> oid \<Rightarrow> nat \<Rightarrow> database \<times> response" where
  "removeFromGroup db chatId userId now =
     (case Chat_findByIdAndUpdate chatId (\<lambda>c. c\<lparr>users := removeAll userId (users c)\<rparr>) now db of
        (db', None) \<Rightarrow> (db', Thrown 404 ''Chat not found'')
      | (db', Some removed) \<Rightarrow> (db', Respond 200 (PChat (Some removed))))"

definition addToGroup :: "database \<Rightarrow> oid \<Rightarrow> oid \<Rightarrow> nat \<Rightarrow> database \<times> response" where
  "addToGroup db chatId userId now =
     (case Chat_findByIdAndUpdate chatId (\<lambda>c. c\<lparr>users := users c @ [userId]\<rparr>) now db of
        (db', None) \<Rightarrow> (db', Thrown 404 ''Chat not found'')
      | (db', Some added) \<Rightarrow> (db', Respond 200 (PChat (Some added))))"

section \<open>The message controller\<close>

definition sendMessage ::
  "database \<Rightarrow> oid \<Rightarrow> jstring option \<Rightarrow> oid option \<Rightarrow> oid \<Rightarrow> nat \<Rightarrow> database \<times> response" where
  "sendMessage db me body_content body_chatId newId now =
     (if \<not> truthy body_content \<or> \<not> truthy body_chatId
      then (db, Respond 400 (PJsonMessage ''Content and chatId are required.''))
      else
        (case (body_content, body_chatId) of
           (Some text, Some chatId) \<Rightarrow>
             (case Message_create
                     \<lparr>message_id = newId, sender = me, content = text, chat = chatId,
                      createdAt = now\<rparr> db of
                Inl e \<Rightarrow> (db, Respond 500 (PJsonMessage ''Failed to send message.''))
              | Inr db1 \<Rightarrow>
                  (let message = Message_findById newId db1;
                       db2 = fst (Chat_findByIdAndUpdate chatId
                                    (\<lambda>c. c\<lparr>latestMessage := map_option message_id message\<rparr>)
                                    now db1)
                   in (db2, Respond 201 (PMessage message))))
         | _ \<Rightarrow> (db, Respond 400 (PJsonMessage ''Content and chatId are required.''))))"

subsection \<open>Reading a response\<close>

text \<open>
  The status of a response and the text it carries for a reader. \<^verbatim>\<open>res.sendStatus(n)\<close>
  sends the status with the registered status message as the body; the table holds
  the codes the controllers use.
\<close>

definition status_text :: "nat \<Rightarrow> string" where
  "status_text n =
     (if n = 200 then ''OK'' else if n = 201 then ''Created''
      else if n = 400 then ''Bad Request'' else if n = 404 then ''Not Found''
      else if n = 500 then ''Internal Server Error'' else [])"

fun status_of :: "response \<Rightarrow> nat" where
  "status_of (SendStatus n) = n"
| "status_of (Respond n p) = n"
| "status_of (Thrown n e) = n"

fun message_of :: "response \<Rightarrow> string option" where
  "message_of (SendStatus n) = Some (status_text n)"
| "message_of (Respond n (PText s)) = Some s"
| "message_of (Respond n (PJsonMessage s)) = Some s"
| "message_of (Respond n p) = None"
| "message_of (Thrown n e) = Some e"

fun response_chats :: "response \<Rightarrow> chat_doc list" where
  "response_chats (Respond n (PChats cs)) = cs"
| "response_chats r = []"

section \<open>The chat view of the client\<close>

text \<open>
  \<^verbatim>\<open>frontend/src/components/SingleChat.js\<close>. The state of the component is a record of
  its \<^verbatim>\<open>useState\<close> cells, of the context values \<^verbatim>\<open>notification\<close> and \<^verbatim>\<open>fetchAgain\<close>, of the
  module variable \<^verbatim>\<open>selectedChatCompare\<close> (\<open>None\<close> when it is falsy) and of the timer that
  \<^verbatim>\<open>typingTimeoutRef.current\<close> names, kept as its deadline and the chat id its callback
  has captured (\<open>None\<close> when no timer is pending: clearing a timer that has fired does
  nothing). A handler returns the state after its updates and what it sent, in order.

  A message object received from the relay or from the REST reply is a JavaScript
  object: \<open>obj\<close> is its identity, which \<^verbatim>\<open>Array.prototype.includes\<close> compares.

  The input that carries \<^verbatim>\<open>typingHandler\<close> and the key handler \<^verbatim>\<open>sendMessage\<close> is rendered
  only while a chat is selected, so both take the id of that chat.
\<close>

record cmessage =
  obj :: nat
  cm_id :: oid
  cm_chat :: oid
  cm_content :: jstring

datatype signal = Typing oid | StopTyping oid | NewMessage cmessage

datatype effect = Emit signal | Post jstring oid | Toast string

record client =
  messages :: "cmessage list"
  newMessage :: jstring
  socketConnected :: bool
  typing :: bool
  notification :: "cmessage list"
  fetchAgain :: bool
  selectedChatCompare :: "oid option"
  typingTimeoutRef :: "(nat \<times> oid) option"

text \<open>
  \<^verbatim>\<open>String.prototype.trim\<close> strips the code units of ECMAScript's WhiteSpace and
  LineTerminator productions from both ends.
\<close>

definition isWhiteSpace :: "nat \<Rightarrow> bool" where
  "isWhiteSpace c =
     (c \<in> set [9, 10, 11, 12, 13, 32, 160, 5760, 8232, 8233, 8239, 8287, 12288, 65279]
      \<or> (8192 \<le> c \<and> c \<le> 8202))"

definition trim :: "jstring \<Rightarrow> jstring" where
  "trim s = rev (dropWhile isWhiteSpace (rev (dropWhile isWhiteSpace s)))"

text \<open>
  The key handler. \<open>post\<close> is the server's answer to \<^verbatim>\<open>axios.post("/api/message", payload)\<close>:
  the created message, or \<open>None\<close> when the request is rejected.
\<close>

definition sendMessage_client ::
  "string \<Rightarrow> oid \<Rightarrow> (jstring \<Rightarrow> oid \<Rightarrow> cmessage option) \<Rightarrow> client \<Rightarrow> client \<times> effect list" where
  "sendMessage_client key chatId post st =
     (if key = ''Enter'' \<and> trim (newMessage st) \<noteq> []
      then
        (case post (newMessage st) chatId of
           Some data \<Rightarrow>
             (st\<lparr>newMessage := [], messages := messages st @ [data]\<rparr>,
              [Emit (StopTyping chatId), Post (newMessage st) chatId, Emit (NewMessage data)])
         | None \<Rightarrow>
             (st, [Emit (StopTyping chatId), Post (newMessage st) chatId,
                   Toast ''Failed to send the Message'']))
      else (st, []))"

definition notification_includes :: "cmessage list \<Rightarrow> cmessage \<Rightarrow> bool" where
  "notification_includes xs m = (obj m \<in> set (map obj xs))"

text \<open>
  The handler of \<^verbatim>\<open>message recieved\<close>. The effect that subscribes it runs after a render
  and the handler keeps the \<^verbatim>\<open>notification\<close> and \<^verbatim>\<open>fetchAgain\<close> of that render in its
  closure: \<open>notification_r\<close> and \<open>fetchAgain_r\<close>. It tests and extends the list of its
  render and negates the flag of its render, and \<^verbatim>\<open>setNotification\<close> and \<^verbatim>\<open>setFetchAgain\<close>
  store the results; only \<^verbatim>\<open>setMessages\<close> is given a function of the current list.
  \<^verbatim>\<open>selectedChatCompare\<close> is a module variable and is read as it is at the event.
\<close>

definition messageHandler :: "cmessage list \<Rightarrow> bool \<Rightarrow> cmessage \<Rightarrow> client \<Rightarrow> client" where
  "messageHandler notification_r fetchAgain_r newMessageRecieved st =
     (if selectedChatCompare st = None
         \<or> selectedChatCompare st \<noteq> Some (cm_chat newMessageRecieved)
      then
        (if \<not> notification_includes notification_r newMessageRecieved
         then st\<lparr>notification := newMessageRecieved # notification_r,
                 fetchAgain := \<not> fetchAgain_r\<rparr>
         else st)
      else st\<lparr>messages := messages st @ [newMessageRecieved]\<rparr>)"

definition typingHandler :: "nat \<Rightarrow> oid \<Rightarrow> jstring \<Rightarrow> client \<Rightarrow> client \<times> effect list" where
  "typingHandler now chatId v st =
     (if \<not> socketConnected st then (st\<lparr>newMessage := v\<rparr>, [])
      else if \<not> typing st
      then (st\<lparr>newMessage := v, typing := True, typingTimeoutRef := Some (now + 3000, chatId)\<rparr>,
            [Emit (Typing chatId)])
      else (st\<lparr>newMessage := v, typingTimeoutRef := Some (now + 3000, chatId)\<rparr>, []))"

text \<open>The callback handed to \<^verbatim>\<open>setTimeout\<close>, and the cleanup that runs on unmount.\<close>

definition typingTimeout :: "oid \<Rightarrow> client \<Rightarrow> client \<times> effect list" where
  "typingTimeout chatId st =
     (st\<lparr>typing := False, typingTimeoutRef := None\<rparr>, [Emit (StopTyping chatId)])"

definition unmount :: "client \<Rightarrow> client" where
  "unmount st = st\<lparr>typingTimeoutRef := None\<rparr>"

subsection \<open>The client on a time line\<close>

text \<open>
  Time is in milliseconds. A run pairs the state with what has been sent so far, each
  signal with the time it was sent at. \<open>advance now\<close> lets time pass up to \<open>now\<close>: a
  pending timer whose deadline has come runs its callback at the deadline. A keystroke
  at time \<open>t\<close> lets time pass up to \<open>t\<close> and then runs \<^verbatim>\<open>typingHandler\<close>.
\<close>

type_synonym run = "client \<times> (nat \<times> effect) list"

definition advance :: "nat \<Rightarrow> run \<Rightarrow> run" where
  "advance now w =
     (case typingTimeoutRef (fst w) of
        None \<Rightarrow> w
      | Some (deadline, chatId) \<Rightarrow>
          if deadline \<le> now
          then (fst (typingTimeout chatId (fst w)),
                snd w @ map (Pair deadline) (snd (typingTimeout chatId (fst w))))
          else w)"

definition keystroke :: "oid \<Rightarrow> nat \<times> jstring \<Rightarrow> run \<Rightarrow> run" where
  "keystroke chatId k w =
     (fst (typingHandler (fst k) chatId (snd k) (fst (advance (fst k) w))),
      snd (advance (fst k) w)
        @ map (Pair (fst k)) (snd (typingHandler (fst k) chatId (snd k) (fst (advance (fst k) w)))))"

fun keystrokes :: "oid \<Rightarrow> (nat \<times> jstring) list \<Rightarrow> run \<Rightarrow> run" where
  "keystrokes chatId [] w = w"
| "keystrokes chatId (k # ks) w = keystrokes chatId ks (keystroke chatId k w)"

text \<open>
  A burst that follows a keystroke at time \<open>t\<close>: the times do not decrease and each
  keystroke comes less than 3000ms after the one before. \<open>last_key\<close> is the time of its
  last keystroke.
\<close>

fun burst :: "nat \<Rightarrow> (nat \<times> jstring) list \<Rightarrow> bool" where
  "burst t [] = True"
| "burst t (k # ks) = (t \<le> fst k \<and> fst k < t + 3000 \<and> burst (fst k) ks)"

fun last_key :: "nat \<Rightarrow> (nat \<times> jstring) list \<Rightarrow> nat" where
  "last_key t [] = t"
| "last_key t (k # ks) = last_key (fst k) ks"

section \<open>The properties as the specification words them\<close>

text \<open>
  The order the specification gives for a chat list: by the creation time of each
  chat's latest message, most recent first. A chat without a stored latest message
  is left unconstrained.
\<close>

definition latest_message_time :: "database \<Rightarrow> chat_doc \<Rightarrow> nat option" where
  "latest_message_time db c =
     (case latestMessage c of
        None \<Rightarrow> None
      | Some i \<Rightarrow> map_option createdAt (Message_findById i db))"

definition spec_latest_message_order :: "database \<Rightarrow> chat_doc list \<Rightarrow> bool" where
  "spec_latest_message_order db cs =
     sorted_wrt
       (\<lambda>a b. case (latest_message_time db a, latest_message_time db b) of
                 (Some ta, Some tb) \<Rightarrow> tb \<le> ta
               | _ \<Rightarrow> True)
       cs"




section \<open>Reachable stores\<close>

text \<open>
  The stores reachable from the empty one by requests to the chat controllers.
  \<^verbatim>\<open>accessChat\<close> and \<^verbatim>\<open>createGroupChat\<close> are always allowed; the flags \<open>ren\<close>, \<open>add\<close> and
  \<open>rem\<close> allow \<^verbatim>\<open>renameGroup\<close>, \<^verbatim>\<open>addToGroup\<close> and \<^verbatim>\<open>removeFromGroup\<close>.
\<close>

inductive reachable_by :: "bool \<Rightarrow> bool \<Rightarrow> bool \<Rightarrow> database \<Rightarrow> bool"
  for ren :: bool and add :: bool and rem :: bool where
  rb_empty: "reachable_by ren add rem empty_db"
| rb_accessChat:
    "reachable_by ren add rem db \<Longrightarrow>
       reachable_by ren add rem (fst (accessChat db me userId newId now))"
| rb_createGroupChat:
    "reachable_by ren add rem db \<Longrightarrow>
       reachable_by ren add rem (fst (createGroupChat db me body_users body_name newId now))"
| rb_renameGroup:
    "reachable_by ren add rem db \<Longrightarrow> ren \<Longrightarrow>
       reachable_by ren add rem (fst (renameGroup db chatId newName now))"
| rb_addToGroup:
    "reachable_by ren add rem db \<Longrightarrow> add \<Longrightarrow>
       reachable_by ren add rem (fst (addToGroup db chatId userId now))"
| rb_removeFromGroup:
    "reachable_by ren add rem db \<Longrightarrow> rem \<Longrightarrow>
       reachable_by ren add rem (fst (removeFromGroup db chatId userId now))"


text \<open>
  The stores reachable by creating chats and sending messages, and what holds of a
  chat in them: its latest message, when it has one, is stored and was created at the
  chat's \<^verbatim>\<open>updatedAt\<close>.
\<close>

inductive reachable_by_messages :: "database \<Rightarrow> bool" where
  rm_empty: "reachable_by_messages empty_db"
| rm_accessChat:
    "reachable_by_messages db \<Longrightarrow>
       reachable_by_messages (fst (accessChat db me userId newId now))"
| rm_createGroupChat:
    "reachable_by_messages db \<Longrightarrow>
       reachable_by_messages (fst (createGroupChat db me body_users body_name newId now))"
| rm_sendMessage:
    "reachable_by_messages db \<Longrightarrow>
       reachable_by_messages (fst (sendMessage db me body_content body_chatId newId now))"

definition updated_by_latest_message :: "database \<Rightarrow> chat_doc \<Rightarrow> bool" where
  "updated_by_latest_message db c =
     (case latestMessage c of
        None \<Rightarrow> True
      | Some i \<Rightarrow>
          (case Message_findById i db of
             None \<Rightarrow> False
           | Some m \<Rightarrow> createdAt m = updatedAt c))"

section \<open>Example stores\<close>

text \<open>A store with one group chat \<open>g1\<close> of three users, created at time 1.\<close>

definition group_g1 :: chat_doc where
  "group_g1 =
     \<lparr>chat_id = ''g1'', chatName = Some ''team'', isGroupChat = True,
      users = [''u2'', ''u3'', ''u1''], groupAdmin = Some ''u1'', latestMessage = None,
      updatedAt = 1\<rparr>"

definition db_g1 :: database where
  "db_g1 = \<lparr>Chat = [group_g1], Message = []\<rparr>"

text \<open>
  Two groups of user \<open>u1\<close>: \<open>g1\<close> is created at time 1 and \<open>g2\<close> at time 2, a message
  goes to \<open>g1\<close> at time 3 and one to \<open>g2\<close> at time 4, and \<open>g1\<close> is renamed at time 5.
\<close>

definition db_two_groups :: database where
  "db_two_groups =
     fst (createGroupChat db_g1 ''u1'' (Some [''u2'', ''u4'']) (Some ''club'') ''g2'' 2)"

definition db_two_messages :: database where
  "db_two_messages =
     fst (sendMessage
            (fst (sendMessage db_two_groups ''u1'' (Some [104]) (Some ''g1'') ''m1'' 3))
            ''u1'' (Some [105]) (Some ''g2'') ''m2'' 4)"

definition db_renamed :: database where
  "db_renamed = fst (renameGroup db_two_messages ''g1'' ''crew'' 5)"



text \<open>
  A group that \<open>u1\<close> creates with the users array \<^verbatim>\<open>["u1", "u1"]\<close>; a direct chat that \<open>u1\<close>
  opens with itself; and the group \<open>g1\<close> after \<^verbatim>\<open>removeFromGroup\<close> has removed its admin.
\<close>

definition group_self :: chat_doc where
  "group_self =
     \<lparr>chat_id = ''g1'', chatName = Some ''team'', isGroupChat = True,
      users = [''u1'', ''u1'', ''u1''], groupAdmin = Some ''u1'', latestMessage = None,
      updatedAt = 1\<rparr>"



section \<open>Example client states\<close>

text \<open>
  The chat view open on chat \<open>g1\<close>, connected and idle, with one notification; the same
  view before the relay has answered \<^verbatim>\<open>connected\<close>; and two messages of other chats.
\<close>

definition note_1 :: cmessage where
  "note_1 = \<lparr>obj = 1, cm_id = ''m1'', cm_chat = ''g2'', cm_content = [104]\<rparr>"

definition note_2 :: cmessage where
  "note_2 = \<lparr>obj = 2, cm_id = ''m2'', cm_chat = ''g3'', cm_content = [105]\<rparr>"

definition reply_3 :: cmessage where
  "reply_3 = \<lparr>obj = 3, cm_id = ''m3'', cm_chat = ''g1'', cm_content = [104, 105]\<rparr>"

definition view_g1 :: client where
  "view_g1 =
     \<lparr>messages = [], newMessage = [104, 105], socketConnected = True, typing = False,
      notification = [note_1], fetchAgain = False, selectedChatCompare = Some ''g1'',
      typingTimeoutRef = None\<rparr>"

definition view_unconnected :: client where
  "view_unconnected = view_g1\<lparr>socketConnected := False\<rparr>"

text \<open>The same view with only white space typed, and a server that accepts every post.\<close>

definition view_blank :: client where
  "view_blank = view_g1\<lparr>newMessage := [32, 9]\<rparr>"

definition post_ok :: "jstring \<Rightarrow> oid \<Rightarrow> cmessage option" where
  "post_ok c i = Some reply_3"

text \<open>A third message of another chat.\<close>

definition reply_other :: cmessage where
  "reply_other = \<lparr>obj = 5, cm_id = ''m5'', cm_chat = ''g2'', cm_content = [106]\<rparr>"

section \<open>Facts about the store operations\<close>

lemma find_update_first:
  "find P xs = Some c \<Longrightarrow> P (f c) \<Longrightarrow> find P (update_first P f xs) = Some (f c)"
  by (induction xs) (auto split: if_splits)

lemma find_snoc_fresh:
  "\<forall>x \<in> set xs. \<not> P x \<Longrightarrow> P d \<Longrightarrow> find P (xs @ [d]) = Some d"
  by (induction xs) auto

lemma find_distinct_key:
  "distinct (map k xs) \<Longrightarrow> e \<in> set xs \<Longrightarrow> find (\<lambda>c. k c = k e) xs = Some e"
  by (induction xs) (auto simp: rev_image_eqI)

lemma find_Some_mem: "find P xs = Some c \<Longrightarrow> c \<in> set xs \<and> P c"
  by (induction xs) (auto split: if_splits)

lemma Chat_findByIdAndUpdate_hit:
  assumes "Chat_findById i db = Some c" and "chat_id (f c) = i"
  shows "Chat_findById i (fst (Chat_findByIdAndUpdate i f now db)) = Some ((f c)\<lparr>updatedAt := now\<rparr>)"
    and "snd (Chat_findByIdAndUpdate i f now db) = Some ((f c)\<lparr>updatedAt := now\<rparr>)"
  using assms
  by (simp_all add: Chat_findByIdAndUpdate_def Chat_findById_def find_update_first)

lemma Chat_findById_id: "Chat_findById i db = Some c \<Longrightarrow> chat_id c = i"
  using find_Some_mem[of "\<lambda>c. chat_id c = i" "Chat db" c] by (simp add: Chat_findById_def)

section \<open>addToGroup\<close>

lemma addToGroup_hit:
  assumes "Chat_findById chatId db = Some c"
  shows "snd (addToGroup db chatId userId t) =
           Respond 200 (PChat (Some (c\<lparr>users := users c @ [userId], updatedAt := t\<rparr>)))"
    and "Chat_findById chatId (fst (addToGroup db chatId userId t)) =
           Some (c\<lparr>users := users c @ [userId], updatedAt := t\<rparr>)"
proof -
  let ?f = "\<lambda>c. c\<lparr>users := users c @ [userId]\<rparr>"
  have a: "Chat_findById chatId (fst (Chat_findByIdAndUpdate chatId ?f t db)) = Some ((?f c)\<lparr>updatedAt := t\<rparr>)"
    and b: "snd (Chat_findByIdAndUpdate chatId ?f t db) = Some ((?f c)\<lparr>updatedAt := t\<rparr>)"
    using Chat_findByIdAndUpdate_hit[OF assms, of ?f t] Chat_findById_id[OF assms] by simp_all
  show "snd (addToGroup db chatId userId t) =
           Respond 200 (PChat (Some (c\<lparr>users := users c @ [userId], updatedAt := t\<rparr>)))"
    using b by (auto simp add: addToGroup_def split: prod.splits option.splits)
  show "Chat_findById chatId (fst (addToGroup db chatId userId t)) =
           Some (c\<lparr>users := users c @ [userId], updatedAt := t\<rparr>)"
    using a b by (auto simp add: addToGroup_def split: prod.splits option.splits)
qed

text \<open>
  Claim C9. \<^verbatim>\<open>addToGroup\<close> pushes without a membership check: on a chat that exists, the
  request answers 200 with the chat, whose participant list is the old one with
  \<open>userId\<close> appended, whether or not \<open>userId\<close> was in it; a second request with the same
  \<open>userId\<close> appends it again, so the user is then listed once more than after the first.
\<close>

theorem addToGroup_pushes_without_membership_check:
  assumes "Chat_findById chatId db = Some c"
  shows "snd (addToGroup db chatId userId t1) =
           Respond 200 (PChat (Some (c\<lparr>users := users c @ [userId], updatedAt := t1\<rparr>)))
       \<and> Chat_findById chatId (fst (addToGroup db chatId userId t1)) =
           Some (c\<lparr>users := users c @ [userId], updatedAt := t1\<rparr>)
       \<and> snd (addToGroup (fst (addToGroup db chatId userId t1)) chatId userId t2) =
           Respond 200 (PChat (Some (c\<lparr>users := users c @ [userId, userId], updatedAt := t2\<rparr>)))
       \<and> Chat_findById chatId (fst (addToGroup (fst (addToGroup db chatId userId t1)) chatId userId t2)) =
           Some (c\<lparr>users := users c @ [userId, userId], updatedAt := t2\<rparr>)"
  using addToGroup_hit[OF assms, of userId t1]
        addToGroup_hit[OF addToGroup_hit(2)[OF assms, of userId t1], of userId t2]
  by simp

theorem addToGroup_pushes_without_membership_check_witness:
  "Chat_findById ''g1'' db_g1 = Some group_g1
   \<and> snd (addToGroup (fst (addToGroup db_g1 ''g1'' ''u2'' 5)) ''g1'' ''u2'' 6) =
       Respond 200
         (PChat (Some (group_g1\<lparr>users := [''u2'', ''u3'', ''u1'', ''u2'', ''u2''], updatedAt := 6\<rparr>)))"
proof -
  have h: "Chat_findById ''g1'' db_g1 = Some group_g1"
    by (simp add: Chat_findById_def db_g1_def group_g1_def)
  have u: "users group_g1 = [''u2'', ''u3'', ''u1'']"
    by (simp add: group_g1_def)
  show ?thesis
    using h u addToGroup_pushes_without_membership_check[OF h, of "''u2''" 5 6] by simp
qed

section \<open>Creating documents\<close>

lemma Message_create_fresh:
  assumes "message_id d \<notin> set (map message_id (Message db))"
  shows "Message_create d db = Inr (db\<lparr>Message := Message db @ [d]\<rparr>)"
    and "Message_findById (message_id d) (db\<lparr>Message := Message db @ [d]\<rparr>) = Some d"
proof -
  show "Message_create d db = Inr (db\<lparr>Message := Message db @ [d]\<rparr>)"
    using assms by (simp add: Message_create_def)
  have "\<forall>x \<in> set (Message db). \<not> message_id x = message_id d"
    using assms by (metis image_eqI list.set_map)
  then have "find (\<lambda>m. message_id m = message_id d) (Message db @ [d]) = Some d"
    by (rule find_snoc_fresh) simp
  then show "Message_findById (message_id d) (db\<lparr>Message := Message db @ [d]\<rparr>) = Some d"
    by (simp add: Message_findById_def)
qed

lemma Chat_create_fresh:
  assumes "chat_id d \<notin> set (map chat_id (Chat db))"
  shows "Chat_create d db = Inr (db\<lparr>Chat := Chat db @ [d]\<rparr>)"
    and "Chat_findById (chat_id d) (db\<lparr>Chat := Chat db @ [d]\<rparr>) = Some d"
proof -
  show "Chat_create d db = Inr (db\<lparr>Chat := Chat db @ [d]\<rparr>)"
    using assms by (simp add: Chat_create_def)
  have "\<forall>x \<in> set (Chat db). \<not> chat_id x = chat_id d"
    using assms by (metis image_eqI list.set_map)
  then have "find (\<lambda>c. chat_id c = chat_id d) (Chat db @ [d]) = Some d"
    by (rule find_snoc_fresh) simp
  then show "Chat_findById (chat_id d) (db\<lparr>Chat := Chat db @ [d]\<rparr>) = Some d"
    by (simp add: Chat_findById_def)
qed

lemma Chat_create_Inr:
  "Chat_create d db = Inr db' \<Longrightarrow>
     db' = db\<lparr>Chat := Chat db @ [d]\<rparr> \<and> chat_id d \<notin> set (map chat_id (Chat db))"
  by (auto simp: Chat_create_def split: if_splits)

lemma find_snoc_miss:
  "find P xs = None \<Longrightarrow> find P (xs @ [d]) = (if P d then Some d else None)"
  by (induction xs) (auto split: if_splits)

lemma Chat_findById_Message_update [simp]:
  "Chat_findById i (db\<lparr>Message := ms\<rparr>) = Chat_findById i db"
  by (simp add: Chat_findById_def)

lemma Message_after_Chat_update [simp]:
  "Message (fst (Chat_findByIdAndUpdate i f now db)) = Message db"
  by (simp add: Chat_findByIdAndUpdate_def split: option.splits)

section \<open>accessChat\<close>

text \<open>
  Claim C1. \<^verbatim>\<open>accessChat\<close> is a find-or-create. In a store whose chat ids are distinct, a
  request of caller \<open>me\<close> for the user \<open>u\<close> answers 200 with a direct chat \<open>c\<close> that holds
  both of them, and the same request made again (whatever id and time it is given)
  answers 200 with the same chat \<open>c\<close> and leaves the store as the first request left it.
  When a direct chat of the two is already stored, \<open>c\<close> is that chat and the first
  request creates nothing; otherwise \<open>c\<close> is the chat the first request creates.
\<close>

theorem accessChat_idempotent:
  assumes "u \<noteq> []"
    and "newId \<notin> set (map chat_id (Chat db))"
    and "distinct (map chat_id (Chat db))"
  shows "\<exists>c. accessChat db me (Some u) newId now =
               (fst (accessChat db me (Some u) newId now), Respond 200 (PChat (Some c)))
           \<and> accessChat (fst (accessChat db me (Some u) newId now)) me (Some u) newId2 now2 =
               (fst (accessChat db me (Some u) newId now), Respond 200 (PChat (Some c)))
           \<and> \<not> isGroupChat c \<and> me \<in> set (users c) \<and> u \<in> set (users c)
           \<and> (case Chat_findOne (\<lambda>c. \<not> isGroupChat c \<and> me \<in> set (users c) \<and> u \<in> set (users c)) db of
                 Some e \<Rightarrow> c = e \<and> fst (accessChat db me (Some u) newId now) = db
               | None \<Rightarrow> chat_id c = newId)"
proof (cases "Chat_findOne (\<lambda>c. \<not> isGroupChat c \<and> me \<in> set (users c) \<and> u \<in> set (users c)) db")
  case (Some e)
  let ?P = "\<lambda>c. \<not> isGroupChat c \<and> me \<in> set (users c) \<and> u \<in> set (users c)"
  from Some have m: "e \<in> set (Chat db)" and pe: "?P e"
    using find_Some_mem[of ?P "Chat db" e] by (simp_all add: Chat_findOne_def)
  have byid: "Chat_findById (chat_id e) db = Some e"
    using find_distinct_key[OF assms(3) m] by (simp add: Chat_findById_def)
  have r: "accessChat db me (Some u) newId now = (db, Respond 200 (PChat (Some e)))"
    and r2: "accessChat db me (Some u) newId2 now2 = (db, Respond 200 (PChat (Some e)))"
    using Some byid assms(1) by (simp_all add: accessChat_def truthy_def)
  show ?thesis using r r2 pe Some by simp
next
  case None
  let ?P = "\<lambda>c. \<not> isGroupChat c \<and> me \<in> set (users c) \<and> u \<in> set (users c)"
  let ?d = "\<lparr>chat_id = newId, chatName = Some ''sender'', isGroupChat = False,
             users = [me, u], groupAdmin = None, latestMessage = None, updatedAt = now\<rparr>"
  let ?db1 = "db\<lparr>Chat := Chat db @ [?d]\<rparr>"
  have cr: "Chat_create ?d db = Inr ?db1" and fi: "Chat_findById newId ?db1 = Some ?d"
    using Chat_create_fresh[of ?d db] assms(2) by simp_all
  have r: "accessChat db me (Some u) newId now = (?db1, Respond 200 (PChat (Some ?d)))"
    using None cr fi assms(1) by (simp add: accessChat_def truthy_def)
  have "find ?P (Chat db @ [?d]) = Some ?d"
    using find_snoc_miss[of ?P "Chat db" ?d] None by (simp add: Chat_findOne_def)
  then have f1: "Chat_findOne ?P ?db1 = Some ?d"
    by (simp add: Chat_findOne_def)
  have r2: "accessChat ?db1 me (Some u) newId2 now2 = (?db1, Respond 200 (PChat (Some ?d)))"
    using f1 fi assms(1) by (simp add: accessChat_def truthy_def)
  show ?thesis using r r2 None by simp
qed

theorem accessChat_idempotent_witness:
  "''u2'' \<noteq> [] \<and> ''d1'' \<notin> set (map chat_id (Chat db_g1)) \<and> distinct (map chat_id (Chat db_g1))
   \<and> (\<exists>c. accessChat db_g1 ''u1'' (Some ''u2'') ''d1'' 2 =
             (fst (accessChat db_g1 ''u1'' (Some ''u2'') ''d1'' 2), Respond 200 (PChat (Some c)))
         \<and> accessChat (fst (accessChat db_g1 ''u1'' (Some ''u2'') ''d1'' 2)) ''u1'' (Some ''u2'') ''d2'' 3 =
             (fst (accessChat db_g1 ''u1'' (Some ''u2'') ''d1'' 2), Respond 200 (PChat (Some c)))
         \<and> chat_id c = ''d1'')"
proof -
  have h1: "''u2'' \<noteq> []" by simp
  have h2: "''d1'' \<notin> set (map chat_id (Chat db_g1))" by (simp add: db_g1_def group_g1_def)
  have h3: "distinct (map chat_id (Chat db_g1))" by (simp add: db_g1_def)
  have n: "Chat_findOne (\<lambda>c. \<not> isGroupChat c \<and> ''u1'' \<in> set (users c) \<and> ''u2'' \<in> set (users c)) db_g1 = None"
    by (simp add: Chat_findOne_def db_g1_def group_g1_def)
  show ?thesis
    using h2 h3 n accessChat_idempotent[OF h1 h2 h3, of "''u1''" 2 "''d2''" 3]
    by auto
qed

section \<open>createGroupChat\<close>

text \<open>
  \<^verbatim>\<open>createGroupChat\<close> tests the length of the parsed array and pushes the caller; it
  neither removes repeated ids nor looks for the caller among them. The users array
  \<^verbatim>\<open>["u1", "u1"]\<close> sent by \<open>u1\<close> is answered 200 with a group whose three participant
  entries name one user.
\<close>

theorem createGroupChat_one_participant_counterexample:
  "createGroupChat empty_db ''u1'' (Some [''u1'', ''u1'']) (Some ''team'') ''g1'' 1 =
     (\<lparr>Chat = [group_self], Message = []\<rparr>, Respond 200 (PChat (Some group_self)))
   \<and> users group_self = [''u1'', ''u1'', ''u1'']
   \<and> card (set (users group_self)) = 1
   \<and> \<not> 2 \<le> card (set (users group_self))"
  by (simp add: createGroupChat_def truthy_def Chat_create_def Chat_findById_def empty_db_def
      group_self_def)

lemma two_distinct_iff:
  "2 \<le> card (insert (me :: 'a) (set parsed)) \<longleftrightarrow> (\<exists>u \<in> set parsed. u \<noteq> me)"
proof
  assume "2 \<le> card (insert me (set parsed))"
  show "\<exists>u \<in> set parsed. u \<noteq> me"
  proof (rule ccontr)
    assume "\<not> (\<exists>u \<in> set parsed. u \<noteq> me)"
    then have "insert me (set parsed) = {me}" by auto
    with \<open>2 \<le> card (insert me (set parsed))\<close> show False by simp
  qed
next
  assume "\<exists>u \<in> set parsed. u \<noteq> me"
  then obtain u where u: "u \<in> set parsed" "u \<noteq> me" by blast
  then have "{u, me} \<subseteq> insert me (set parsed)" by auto
  then have "card {u, me} \<le> card (insert me (set parsed))"
    by (intro card_mono) simp_all
  with u(2) show "2 \<le> card (insert me (set parsed))" by simp
qed

text \<open>
  Claim C5, as amended. A \<^verbatim>\<open>createGroupChat\<close> request whose parsed users array has fewer
  than 2 entries is answered with status 400 and leaves the store unchanged (the message
  is the one about the fields when the name is missing too). A request that is answered
  200 with a chat had a non-empty name and at least 2 parsed users: the chat is stored,
  is a group chat under that name, and its participant entries are the parsed users
  followed by the caller, at least 3 entries. The entries name the parsed users and the
  caller, so the chat has at least 2 distinct participants exactly when some parsed user
  is not the caller.
\<close>

theorem createGroupChat_validates:
  "(length parsed < 2 \<longrightarrow>
      createGroupChat db me (Some parsed) body_name newId now =
        (db, if truthy body_name
             then Respond 400 (PText ''At least 2 users are required to form a group chat'')
             else Respond 400 (PJsonMessage ''Please fill all the fields''))
      \<and> status_of (snd (createGroupChat db me (Some parsed) body_name newId now)) = 400)
   \<and> (createGroupChat db me body_users body_name newId now = (db', Respond 200 (PChat g)) \<longrightarrow>
        (\<exists>parsed name. body_users = Some parsed \<and> body_name = Some name \<and> name \<noteq> []
           \<and> 2 \<le> length parsed
           \<and> g = Some \<lparr>chat_id = newId, chatName = Some name, isGroupChat = True,
                        users = parsed @ [me], groupAdmin = Some me, latestMessage = None,
                        updatedAt = now\<rparr>
           \<and> Chat db' = Chat db @ [the g]
           \<and> 3 \<le> length (users (the g))
           \<and> set (users (the g)) = insert me (set parsed)
           \<and> (2 \<le> card (set (users (the g))) \<longleftrightarrow> (\<exists>u \<in> set parsed. u \<noteq> me))))"
proof (intro conjI impI)
  assume "length parsed < 2"
  then show "createGroupChat db me (Some parsed) body_name newId now =
        (db, if truthy body_name
             then Respond 400 (PText ''At least 2 users are required to form a group chat'')
             else Respond 400 (PJsonMessage ''Please fill all the fields''))"
    by (simp add: createGroupChat_def)
  then show "status_of (snd (createGroupChat db me (Some parsed) body_name newId now)) = 400"
    by simp
next
  assume ok: "createGroupChat db me body_users body_name newId now = (db', Respond 200 (PChat g))"
  then obtain parsed where p: "body_users = Some parsed"
    by (cases body_users) (auto simp: createGroupChat_def)
  from ok p have t: "truthy body_name" and l: "2 \<le> length parsed"
    by (auto simp: createGroupChat_def split: if_splits)
  then obtain name where n: "body_name = Some name" "name \<noteq> []"
    by (cases body_name) (auto simp: truthy_def)
  let ?d = "\<lparr>chat_id = newId, chatName = Some name, isGroupChat = True,
                        users = parsed @ [me], groupAdmin = Some me, latestMessage = None,
                        updatedAt = now\<rparr>"
  from ok p t l n obtain db1 where c: "Chat_create ?d db = Inr db1"
    and r: "db' = db1" "g = Chat_findById newId db1"
    by (auto simp: createGroupChat_def split: sum.splits)
  from Chat_create_Inr[OF c] have d1: "db1 = db\<lparr>Chat := Chat db @ [?d]\<rparr>"
    and fr: "chat_id ?d \<notin> set (map chat_id (Chat db))" by simp_all
  have g: "g = Some ?d"
    using Chat_create_fresh(2)[OF fr] d1 r by simp
  have s: "set (users ?d) = insert me (set parsed)" by simp
  have k: "2 \<le> card (set (users ?d)) \<longleftrightarrow> (\<exists>u \<in> set parsed. u \<noteq> me)"
    unfolding s by (rule two_distinct_iff)
  have len: "3 \<le> length (users ?d)" using l by simp
  have st: "Chat db' = Chat db @ [?d]" using r d1 by simp
  show "\<exists>parsed name. body_users = Some parsed \<and> body_name = Some name \<and> name \<noteq> []
           \<and> 2 \<le> length parsed
           \<and> g = Some \<lparr>chat_id = newId, chatName = Some name, isGroupChat = True,
                        users = parsed @ [me], groupAdmin = Some me, latestMessage = None,
                        updatedAt = now\<rparr>
           \<and> Chat db' = Chat db @ [the g]
           \<and> 3 \<le> length (users (the g))
           \<and> set (users (the g)) = insert me (set parsed)
           \<and> (2 \<le> card (set (users (the g))) \<longleftrightarrow> (\<exists>u \<in> set parsed. u \<noteq> me))"
    apply (rule exI[of _ parsed])
    apply (rule exI[of _ name])
    using p n l g st len s k by simp
qed

theorem createGroupChat_validates_witness:
  "length [''u2''] < 2
   \<and> createGroupChat empty_db ''u1'' (Some [''u2'']) (Some ''team'') ''g1'' 1 =
       (empty_db, Respond 400 (PText ''At least 2 users are required to form a group chat''))
   \<and> createGroupChat empty_db ''u1'' (Some [''u2'', ''u3'']) (Some ''team'') ''g1'' 1 =
       (db_g1, Respond 200 (PChat (Some group_g1)))
   \<and> 3 \<le> length (users group_g1)
   \<and> 2 \<le> card (set (users group_g1))"
proof -
  have h1: "length [''u2''] < 2" by simp
  have h2: "createGroupChat empty_db ''u1'' (Some [''u2'', ''u3'']) (Some ''team'') ''g1'' 1 =
       (db_g1, Respond 200 (PChat (Some group_g1)))"
    by (simp add: createGroupChat_def truthy_def Chat_create_def Chat_findById_def empty_db_def
        db_g1_def group_g1_def)
  have t: "truthy (Some ''team'')" by (simp add: truthy_def)
  from createGroupChat_validates[of "[''u2'']" empty_db "''u1''" "Some ''team''" "''g1''" 1
      "Some [''u2'', ''u3'']" db_g1 "Some group_g1"] h1 h2 t
  show ?thesis by auto
qed

section \<open>sendMessage\<close>

text \<open>
  Claim C3. For non-empty content and the id of a stored chat, \<^verbatim>\<open>sendMessage\<close> (given an
  unused message id) stores a new message whose sender is the caller, answers 201
  with that message, and leaves the chat with its \<^verbatim>\<open>latestMessage\<close> set to the new
  message.
\<close>

theorem sendMessage_sets_latestMessage:
  assumes "text \<noteq> []" and "chatId \<noteq> []"
    and "Chat_findById chatId db = Some c"
    and "newId \<notin> set (map message_id (Message db))"
  shows "snd (sendMessage db me (Some text) (Some chatId) newId now) =
           Respond 201 (PMessage (Some
             \<lparr>message_id = newId, sender = me, content = text, chat = chatId, createdAt = now\<rparr>))
       \<and> Message (fst (sendMessage db me (Some text) (Some chatId) newId now)) =
           Message db @
             [\<lparr>message_id = newId, sender = me, content = text, chat = chatId, createdAt = now\<rparr>]
       \<and> Chat_findById chatId (fst (sendMessage db me (Some text) (Some chatId) newId now)) =
           Some (c\<lparr>latestMessage := Some newId, updatedAt := now\<rparr>)"
proof -
  let ?m = "\<lparr>message_id = newId, sender = me, content = text, chat = chatId, createdAt = now\<rparr>"
  let ?db1 = "db\<lparr>Message := Message db @ [?m]\<rparr>"
  let ?f = "\<lambda>c. c\<lparr>latestMessage := Some newId\<rparr>"
  let ?db2 = "fst (Chat_findByIdAndUpdate chatId ?f now ?db1)"
  have cr: "Message_create ?m db = Inr ?db1" and fi: "Message_findById newId ?db1 = Some ?m"
    using Message_create_fresh[of ?m db] assms(4) by simp_all
  have c1: "Chat_findById chatId ?db1 = Some c"
    using assms(3) by simp
  have up: "Chat_findById chatId ?db2 = Some ((?f c)\<lparr>updatedAt := now\<rparr>)"
    using Chat_findByIdAndUpdate_hit(1)[OF c1, of ?f now] Chat_findById_id[OF assms(3)] by simp
  have run: "sendMessage db me (Some text) (Some chatId) newId now =
               (?db2, Respond 201 (PMessage (Some ?m)))"
    using assms(1,2) cr fi by (simp add: sendMessage_def truthy_def)
  have ms: "Message ?db2 = Message db @ [?m]" by simp
  show ?thesis using run up ms by simp
qed

theorem sendMessage_sets_latestMessage_witness:
  "[104, 105] \<noteq> ([] :: jstring) \<and> ''g1'' \<noteq> [] \<and> Chat_findById ''g1'' db_g1 = Some group_g1
   \<and> ''m1'' \<notin> set (map message_id (Message db_g1))
   \<and> snd (sendMessage db_g1 ''u2'' (Some [104, 105]) (Some ''g1'') ''m1'' 7) =
       Respond 201 (PMessage (Some
         \<lparr>message_id = ''m1'', sender = ''u2'', content = [104, 105], chat = ''g1'', createdAt = 7\<rparr>))
   \<and> Chat_findById ''g1'' (fst (sendMessage db_g1 ''u2'' (Some [104, 105]) (Some ''g1'') ''m1'' 7)) =
       Some (group_g1\<lparr>latestMessage := Some ''m1'', updatedAt := 7\<rparr>)"
proof -
  have h1: "[104, 105] \<noteq> ([] :: jstring)" by simp
  have h2: "''g1'' \<noteq> []" by simp
  have h3: "Chat_findById ''g1'' db_g1 = Some group_g1"
    by (simp add: Chat_findById_def db_g1_def group_g1_def)
  have h4: "''m1'' \<notin> set (map message_id (Message db_g1))"
    by (simp add: db_g1_def)
  show ?thesis
    using h3 h4 sendMessage_sets_latestMessage[OF h1 h2 h3 h4, of "''u2''" 7] by simp
qed

section \<open>Missing fields\<close>

text \<open>
  Claim C8. A request that lacks a required field is answered with status 400 and a
  text for the reader, and writes nothing. \<^verbatim>\<open>accessChat\<close> without a \<^verbatim>\<open>userId\<close> answers with
  \<^verbatim>\<open>res.sendStatus(400)\<close>, whose body is the status message \<^verbatim>\<open>Bad Request\<close> (its own text
  about the parameter goes to the server's log only); \<^verbatim>\<open>sendMessage\<close> without content or
  without a chat id answers 400 with the JSON message
  \<^verbatim>\<open>Content and chatId are required.\<close> In both cases the store is returned as it was.
\<close>

theorem missing_field_is_400:
  "(\<not> truthy userId \<longrightarrow>
      accessChat db me userId newId now = (db, SendStatus 400)
      \<and> status_of (snd (accessChat db me userId newId now)) = 400
      \<and> message_of (snd (accessChat db me userId newId now)) = Some ''Bad Request'')
   \<and> (\<not> truthy body_content \<or> \<not> truthy body_chatId \<longrightarrow>
      sendMessage db me body_content body_chatId newId now
        = (db, Respond 400 (PJsonMessage ''Content and chatId are required.''))
      \<and> status_of (snd (sendMessage db me body_content body_chatId newId now)) = 400
      \<and> message_of (snd (sendMessage db me body_content body_chatId newId now))
          = Some ''Content and chatId are required.'')"
  by (simp add: accessChat_def sendMessage_def status_text_def)

theorem missing_field_is_400_witness:
  "\<not> truthy (None :: oid option) \<and> \<not> truthy (Some ([] :: jstring))
   \<and> accessChat db_g1 ''u1'' None ''d1'' 2 = (db_g1, SendStatus 400)
   \<and> message_of (snd (accessChat db_g1 ''u1'' None ''d1'' 2)) = Some ''Bad Request''
   \<and> sendMessage db_g1 ''u1'' (Some []) (Some ''g1'') ''d1'' 2
        = (db_g1, Respond 400 (PJsonMessage ''Content and chatId are required.''))"
proof -
  have h1: "\<not> truthy (None :: oid option)" by (simp add: truthy_def)
  have h2: "\<not> truthy (Some ([] :: jstring))" by (simp add: truthy_def)
  show ?thesis
    using h1 h2 missing_field_is_400[of None db_g1 "''u1''" "''d1''" 2 "Some []" "Some ''g1''"]
    by (simp add: status_text_def)
qed

section \<open>The store after a request\<close>

lemma find_snoc_hit:
  "find P xs = Some c \<Longrightarrow> find P (xs @ ys) = Some c"
  by (induction xs) (auto split: if_splits)

lemma list_all_update_first:
  "list_all Q xs \<Longrightarrow> (\<And>x. Q x \<Longrightarrow> Q (f x)) \<Longrightarrow> list_all Q (update_first P f xs)"
  by (induction xs) auto

lemma accessChat_store:
  "fst (accessChat db me userId newId now) = db
   \<or> (\<exists>u. fst (accessChat db me userId newId now) =
         db\<lparr>Chat := Chat db @
           [\<lparr>chat_id = newId, chatName = Some ''sender'', isGroupChat = False,
             users = [me, u], groupAdmin = None, latestMessage = None, updatedAt = now\<rparr>]\<rparr>)"
  by (auto simp: accessChat_def Chat_create_def split: option.splits sum.splits if_splits)

lemma createGroupChat_store:
  "fst (createGroupChat db me body_users body_name newId now) = db
   \<or> (\<exists>parsed name. 2 \<le> length parsed \<and> name \<noteq> []
        \<and> fst (createGroupChat db me body_users body_name newId now) =
         db\<lparr>Chat := Chat db @
           [\<lparr>chat_id = newId, chatName = Some name, isGroupChat = True,
             users = parsed @ [me], groupAdmin = Some me, latestMessage = None,
             updatedAt = now\<rparr>]\<rparr>)"
proof (cases "\<exists>parsed name. body_users = Some parsed \<and> body_name = Some name
                \<and> 2 \<le> length parsed \<and> name \<noteq> [] \<and> newId \<notin> set (map chat_id (Chat db))")
  case True
  then obtain parsed name where h: "body_users = Some parsed" "body_name = Some name"
      "2 \<le> length parsed" "name \<noteq> []" "newId \<notin> set (map chat_id (Chat db))"
    by blast
  then have "fst (createGroupChat db me body_users body_name newId now) =
         db\<lparr>Chat := Chat db @
           [\<lparr>chat_id = newId, chatName = Some name, isGroupChat = True,
             users = parsed @ [me], groupAdmin = Some me, latestMessage = None,
             updatedAt = now\<rparr>]\<rparr>"
    by (simp add: createGroupChat_def Chat_create_def truthy_def)
  with h(3,4) show ?thesis by blast
next
  case False
  then have "fst (createGroupChat db me body_users body_name newId now) = db"
    by (cases body_users; cases body_name)
       (auto simp: createGroupChat_def Chat_create_def truthy_def)
  then show ?thesis by simp
qed

lemma sendMessage_store:
  "fst (sendMessage db me body_content body_chatId newId now) = db
   \<or> (\<exists>msg_text chatId. newId \<notin> set (map message_id (Message db))
        \<and> fst (sendMessage db me body_content body_chatId newId now) =
            fst (Chat_findByIdAndUpdate chatId (\<lambda>c. c\<lparr>latestMessage := Some newId\<rparr>) now
                   (db\<lparr>Message := Message db @
                      [\<lparr>message_id = newId, sender = me, content = msg_text, chat = chatId,
                        createdAt = now\<rparr>]\<rparr>)))"
proof (cases "\<exists>msg_text chatId. body_content = Some msg_text \<and> body_chatId = Some chatId \<and> msg_text \<noteq> []
                \<and> chatId \<noteq> [] \<and> newId \<notin> set (map message_id (Message db))")
  case True
  then obtain msg_text chatId where h: "body_content = Some msg_text" "body_chatId = Some chatId"
      "msg_text \<noteq> []" "chatId \<noteq> []" "newId \<notin> set (map message_id (Message db))"
    by blast
  let ?m = "\<lparr>message_id = newId, sender = me, content = msg_text, chat = chatId, createdAt = now\<rparr>"
  have cr: "Message_create ?m db = Inr (db\<lparr>Message := Message db @ [?m]\<rparr>)"
    and fi: "Message_findById newId (db\<lparr>Message := Message db @ [?m]\<rparr>) = Some ?m"
    using Message_create_fresh[of ?m db] h(5) by simp_all
  have "fst (sendMessage db me body_content body_chatId newId now) =
          fst (Chat_findByIdAndUpdate chatId (\<lambda>c. c\<lparr>latestMessage := Some newId\<rparr>) now
                 (db\<lparr>Message := Message db @ [?m]\<rparr>))"
    using h(1-4) cr fi by (simp add: sendMessage_def truthy_def)
  with h(5) show ?thesis by blast
next
  case False
  then have "fst (sendMessage db me body_content body_chatId newId now) = db"
    by (cases body_content; cases body_chatId)
       (auto simp: sendMessage_def Message_create_def truthy_def)
  then show ?thesis by simp
qed

lemma fst_renameGroup:
  "fst (renameGroup db chatId newName now) =
     fst (Chat_findByIdAndUpdate chatId (\<lambda>c. c\<lparr>chatName := Some newName\<rparr>) now db)"
  by (simp add: renameGroup_def split: prod.splits option.splits)

lemma fst_addToGroup:
  "fst (addToGroup db chatId userId now) =
     fst (Chat_findByIdAndUpdate chatId (\<lambda>c. c\<lparr>users := users c @ [userId]\<rparr>) now db)"
  by (simp add: addToGroup_def split: prod.splits option.splits)

lemma fst_removeFromGroup:
  "fst (removeFromGroup db chatId userId now) =
     fst (Chat_findByIdAndUpdate chatId (\<lambda>c. c\<lparr>users := removeAll userId (users c)\<rparr>) now db)"
  by (simp add: removeFromGroup_def split: prod.splits option.splits)

section \<open>fetchChats\<close>

text \<open>
  \<^verbatim>\<open>fetchChats\<close> sorts on the chat's \<^verbatim>\<open>updatedAt\<close>, which every write to the chat sets, not
  on the latest message. In the store \<open>db_renamed\<close> the chat \<open>g1\<close> was renamed after the
  last message was sent: the list of \<open>u1\<close> starts with \<open>g1\<close>, whose latest message
  (time 3) is older than that of \<open>g2\<close> (time 4), so the list is not in the order of
  latest-message recency.
\<close>

theorem fetchChats_order_counterexample:
  "\<not> spec_latest_message_order db_renamed (response_chats (fetchChats db_renamed ''u1''))
   \<and> map chat_id (response_chats (fetchChats db_renamed ''u1'')) = [''g1'', ''g2'']
   \<and> map (latest_message_time db_renamed) (response_chats (fetchChats db_renamed ''u1''))
       = [Some 3, Some 4]"
  by code_simp

lemma updated_by_latest_message_snoc:
  assumes "updated_by_latest_message db c"
  shows "updated_by_latest_message (db\<lparr>Message := Message db @ [m]\<rparr>) c"
proof (cases "latestMessage c")
  case None
  then show ?thesis by (simp add: updated_by_latest_message_def)
next
  case (Some i)
  with assms obtain m' where m': "Message_findById i db = Some m'" "createdAt m' = updatedAt c"
    by (auto simp: updated_by_latest_message_def split: option.splits)
  have "Message_findById i (db\<lparr>Message := Message db @ [m]\<rparr>) = Some m'"
    using find_snoc_hit[of "\<lambda>m. message_id m = i" "Message db" m' "[m]"] m'(1)
    by (simp add: Message_findById_def)
  with Some m'(2) show ?thesis by (simp add: updated_by_latest_message_def)
qed

lemma Message_findById_Chat_update [simp]:
  "Message_findById i (db\<lparr>Chat := cs\<rparr>) = Message_findById i db"
  by (simp add: Message_findById_def)

lemma updated_by_latest_message_Chat [simp]:
  "updated_by_latest_message (db\<lparr>Chat := cs\<rparr>) c = updated_by_latest_message db c"
  by (simp add: updated_by_latest_message_def split: option.splits)

lemma reachable_by_messages_updated:
  "reachable_by_messages db \<Longrightarrow> list_all (updated_by_latest_message db) (Chat db)"
proof (induction rule: reachable_by_messages.induct)
  case rm_empty
  show ?case by (simp add: empty_db_def)
next
  case (rm_accessChat db me userId newId now)
  have "updated_by_latest_message db
          \<lparr>chat_id = newId, chatName = Some ''sender'', isGroupChat = False,
           users = [me, u], groupAdmin = None, latestMessage = None, updatedAt = now\<rparr>" for u
    by (simp add: updated_by_latest_message_def)
  then show ?case
    using rm_accessChat.IH accessChat_store[of db me userId newId now]
    by (auto simp: list_all_iff)
next
  case (rm_createGroupChat db me body_users body_name newId now)
  have "updated_by_latest_message db
          \<lparr>chat_id = newId, chatName = Some name, isGroupChat = True,
           users = parsed @ [me], groupAdmin = Some me, latestMessage = None,
           updatedAt = now\<rparr>" for parsed name
    by (simp add: updated_by_latest_message_def)
  then show ?case
    using rm_createGroupChat.IH createGroupChat_store[of db me body_users body_name newId now]
    by (auto simp: list_all_iff)
next
  case (rm_sendMessage db me body_content body_chatId newId now)
  let ?db' = "fst (sendMessage db me body_content body_chatId newId now)"
  from sendMessage_store[of db me body_content body_chatId newId now]
  consider (same) "?db' = db"
    | (sent) msg_text chatId where "newId \<notin> set (map message_id (Message db))"
        "?db' = fst (Chat_findByIdAndUpdate chatId (\<lambda>c. c\<lparr>latestMessage := Some newId\<rparr>) now
                   (db\<lparr>Message := Message db @
                      [\<lparr>message_id = newId, sender = me, content = msg_text, chat = chatId,
                        createdAt = now\<rparr>]\<rparr>))"
    by blast
  then show ?case
  proof cases
    case same
    then show ?thesis using rm_sendMessage.IH by simp
  next
    case sent
    let ?m = "\<lparr>message_id = newId, sender = me, content = msg_text, chat = chatId, createdAt = now\<rparr>"
    let ?db1 = "db\<lparr>Message := Message db @ [?m]\<rparr>"
    have fi: "Message_findById newId ?db1 = Some ?m"
      using Message_create_fresh(2)[of ?m db] sent(1) by simp
    have old: "list_all (updated_by_latest_message ?db1) (Chat db)"
      using rm_sendMessage.IH updated_by_latest_message_snoc[of db _ ?m]
      by (simp add: list_all_iff)
    show ?thesis
    proof (cases "Chat_findById chatId ?db1")
      case None
      then have "?db' = ?db1" using sent(2) by (simp add: Chat_findByIdAndUpdate_def)
      then show ?thesis using old by simp
    next
      case (Some c)
      have new: "\<And>x. updated_by_latest_message ?db1
                        ((x\<lparr>latestMessage := Some newId\<rparr>)\<lparr>updatedAt := now\<rparr>)"
        using fi by (simp add: updated_by_latest_message_def)
      have "list_all (updated_by_latest_message ?db1)
              (update_first (\<lambda>c. chat_id c = chatId)
                 (\<lambda>c. (c\<lparr>latestMessage := Some newId\<rparr>)\<lparr>updatedAt := now\<rparr>) (Chat db))"
        using old new by (intro list_all_update_first)
      then show ?thesis
        using Some sent(2) by (simp add: Chat_findByIdAndUpdate_def)
    qed
  qed
qed

lemma updated_order:
  assumes "list_all (updated_by_latest_message db) cs"
    and "sorted_wrt (\<lambda>a b. updatedAt b \<le> updatedAt a) cs"
  shows "spec_latest_message_order db cs"
proof -
  have t: "\<And>c ta. c \<in> set cs \<Longrightarrow> latest_message_time db c = Some ta \<Longrightarrow> ta = updatedAt c"
    using assms(1)
    by (auto simp: list_all_iff updated_by_latest_message_def latest_message_time_def
        split: option.splits)
  have "sorted_wrt
       (\<lambda>a b. case (latest_message_time db a, latest_message_time db b) of
                 (Some ta, Some tb) \<Rightarrow> tb \<le> ta
               | _ \<Rightarrow> True) cs"
    using assms(2)
  proof (rule sorted_wrt_mono_rel[rotated])
    fix a b assume "a \<in> set cs" "b \<in> set cs" "updatedAt b \<le> updatedAt a"
    then show "case (latest_message_time db a, latest_message_time db b) of
                 (Some ta, Some tb) \<Rightarrow> tb \<le> ta
               | _ \<Rightarrow> True"
      using t[of a] t[of b] by (auto split: option.splits)
  qed
  then show ?thesis by (simp add: spec_latest_message_order_def)
qed

lemma touch_updatedAt:
  assumes "Chat_findById chatId db = Some c" and "\<And>d. chat_id (f d) = chat_id d"
  shows "map_option updatedAt (Chat_findById chatId (fst (Chat_findByIdAndUpdate chatId f now db)))
           = Some now"
  using Chat_findByIdAndUpdate_hit(1)[OF assms(1), of f now] assms(2)[of c]
    Chat_findById_id[OF assms(1)]
  by simp

text \<open>
  Claim C4, as amended. For every user, \<^verbatim>\<open>fetchChats\<close> answers 200 with exactly the stored
  chats whose participant list contains that user (each as often as it is stored),
  ordered by the chats' \<^verbatim>\<open>updatedAt\<close>, most recent first. In every store reached by
  \<^verbatim>\<open>accessChat\<close>, \<^verbatim>\<open>createGroupChat\<close> and \<^verbatim>\<open>sendMessage\<close> alone this is the order of
  latest-message recency, most recent first (a chat without a message may stand
  anywhere). \<^verbatim>\<open>renameGroup\<close>, \<^verbatim>\<open>addToGroup\<close> and \<^verbatim>\<open>removeFromGroup\<close> on a stored chat set its
  \<^verbatim>\<open>updatedAt\<close> to the time of their request as well.
\<close>

theorem fetchChats_sorted_by_updatedAt:
  "(\<exists>cs. fetchChats db me = Respond 200 (PChats cs)
        \<and> mset cs = mset (filter (\<lambda>c. me \<in> set (users c)) (Chat db))
        \<and> sorted_wrt (\<lambda>a b. updatedAt b \<le> updatedAt a) cs
        \<and> (reachable_by_messages db \<longrightarrow> spec_latest_message_order db cs))
   \<and> (Chat_findById chatId db = Some c \<longrightarrow>
        map_option updatedAt (Chat_findById chatId (fst (renameGroup db chatId newName now)))
          = Some now
        \<and> map_option updatedAt (Chat_findById chatId (fst (addToGroup db chatId userId now)))
          = Some now
        \<and> map_option updatedAt (Chat_findById chatId (fst (removeFromGroup db chatId userId now)))
          = Some now)"
proof (intro conjI impI)
  let ?cs = "sort_key (\<lambda>c. - int (updatedAt c)) (filter (\<lambda>c. me \<in> set (users c)) (Chat db))"
  have "sorted (map (\<lambda>c. - int (updatedAt c)) ?cs)"
    by (rule sorted_sort_key)
  then have so: "sorted_wrt (\<lambda>a b. updatedAt b \<le> updatedAt a) ?cs"
    by (simp add: sorted_map)
  have link: "spec_latest_message_order db ?cs" if "reachable_by_messages db"
  proof -
    have "list_all (updated_by_latest_message db) (Chat db)"
      using that by (rule reachable_by_messages_updated)
    then have "list_all (updated_by_latest_message db) ?cs"
      by (simp add: list_all_iff)
    then show ?thesis using so by (rule updated_order)
  qed
  show "\<exists>cs. fetchChats db me = Respond 200 (PChats cs)
        \<and> mset cs = mset (filter (\<lambda>c. me \<in> set (users c)) (Chat db))
        \<and> sorted_wrt (\<lambda>a b. updatedAt b \<le> updatedAt a) cs
        \<and> (reachable_by_messages db \<longrightarrow> spec_latest_message_order db cs)"
    using so link by (simp add: fetchChats_def)
next
  assume c: "Chat_findById chatId db = Some c"
  show "map_option updatedAt (Chat_findById chatId (fst (renameGroup db chatId newName now)))
          = Some now"
    unfolding fst_renameGroup by (rule touch_updatedAt[OF c]) simp
  show "map_option updatedAt (Chat_findById chatId (fst (addToGroup db chatId userId now)))
          = Some now"
    unfolding fst_addToGroup by (rule touch_updatedAt[OF c]) simp
  show "map_option updatedAt (Chat_findById chatId (fst (removeFromGroup db chatId userId now)))
          = Some now"
    unfolding fst_removeFromGroup by (rule touch_updatedAt[OF c]) simp
qed

theorem fetchChats_sorted_by_updatedAt_witness:
  "reachable_by_messages db_two_messages
   \<and> map chat_id (response_chats (fetchChats db_two_messages ''u1'')) = [''g2'', ''g1'']
   \<and> spec_latest_message_order db_two_messages (response_chats (fetchChats db_two_messages ''u1''))
   \<and> Chat_findById ''g1'' db_two_messages \<noteq> None
   \<and> map_option updatedAt (Chat_findById ''g1'' (fst (renameGroup db_two_messages ''g1'' ''crew'' 5)))
       = Some 5"
proof -
  have e: "fst (createGroupChat empty_db ''u1'' (Some [''u2'', ''u3'']) (Some ''team'') ''g1'' 1) = db_g1"
    by code_simp
  have "reachable_by_messages (fst (createGroupChat empty_db ''u1'' (Some [''u2'', ''u3'']) (Some ''team'') ''g1'' 1))"
    by (intro rm_createGroupChat rm_empty)
  then have "reachable_by_messages db_g1" unfolding e .
  then have h1: "reachable_by_messages db_two_messages"
    unfolding db_two_messages_def db_two_groups_def
    by (intro rm_sendMessage rm_createGroupChat)
  obtain c where h2: "Chat_findById ''g1'' db_two_messages = Some c"
    by (cases "Chat_findById ''g1'' db_two_messages") (simp_all, code_simp)
  have ids: "map chat_id (response_chats (fetchChats db_two_messages ''u1'')) = [''g2'', ''g1'']"
    by code_simp
  from fetchChats_sorted_by_updatedAt[of db_two_messages "''u1''" "''g1''" c "''crew''" 5 "[]"] h1 h2 ids
  show ?thesis by auto
qed

section \<open>The data-model invariants\<close>







section \<open>The relay consumer of the client\<close>

text \<open>
  A message of a chat that is not the open one is put at the front of the
  notification list, not at its end: with one notification in the list, the list
  after the event, handled by the handler of the current render, is not the old list
  followed by the message.
\<close>

theorem notification_order_counterexample:
  "notification (messageHandler (notification view_g1) (fetchAgain view_g1) note_2 view_g1)
     = [note_2, note_1]
   \<and> notification (messageHandler (notification view_g1) (fetchAgain view_g1) note_2 view_g1)
     \<noteq> notification view_g1 @ [note_2]"
  by (simp add: messageHandler_def notification_includes_def view_g1_def note_1_def note_2_def)

text \<open>
  A handler keeps the list and the flag of the render that subscribed it. Two
  messages handled by the same handler, before the component has rendered again,
  leave the second message in front of the list of that render and the flag negated
  once: the first message is no longer in the list.
\<close>

lemma messageHandler_same_render:
  "notification
     (messageHandler (notification view_g1) (fetchAgain view_g1) reply_other
        (messageHandler (notification view_g1) (fetchAgain view_g1) note_2 view_g1))
     = [reply_other, note_1]
   \<and> fetchAgain
     (messageHandler (notification view_g1) (fetchAgain view_g1) reply_other
        (messageHandler (notification view_g1) (fetchAgain view_g1) note_2 view_g1))"
  by (simp add: messageHandler_def notification_includes_def view_g1_def note_1_def note_2_def
      reply_other_def)

text \<open>
  Claim C7, as amended. For a message event received by \<^verbatim>\<open>messageHandler\<close>: when a chat is
  open and the message's chat id is that chat's id, the message is appended to the end
  of the visible message list and nothing else changes. Otherwise, for the handler
  that the current render subscribed: when the notification list holds no message with
  the id of the new one (and not the object itself), the message is put at the front of
  the notification list and the re-fetch flag is toggled; when the message itself is in
  the notification list, nothing changes.
\<close>

theorem messageHandler_routes:
  "(selectedChatCompare st = Some (cm_chat m) \<longrightarrow>
      messageHandler notification_r fetchAgain_r m st = st\<lparr>messages := messages st @ [m]\<rparr>)
   \<and> (selectedChatCompare st \<noteq> Some (cm_chat m)
        \<and> cm_id m \<notin> set (map cm_id (notification st))
        \<and> obj m \<notin> set (map obj (notification st)) \<longrightarrow>
      messageHandler (notification st) (fetchAgain st) m st =
        st\<lparr>notification := m # notification st, fetchAgain := \<not> fetchAgain st\<rparr>)
   \<and> (selectedChatCompare st \<noteq> Some (cm_chat m) \<and> m \<in> set (notification st) \<longrightarrow>
      messageHandler (notification st) (fetchAgain st) m st = st)"
  by (auto simp: messageHandler_def notification_includes_def)

theorem messageHandler_routes_witness:
  "selectedChatCompare view_g1 = Some (cm_chat reply_3)
   \<and> messages (messageHandler [] True reply_3 view_g1) = [reply_3]
   \<and> selectedChatCompare view_g1 \<noteq> Some (cm_chat note_2)
   \<and> cm_id note_2 \<notin> set (map cm_id (notification view_g1))
   \<and> obj note_2 \<notin> set (map obj (notification view_g1))
   \<and> notification (messageHandler (notification view_g1) (fetchAgain view_g1) note_2 view_g1)
       = [note_2, note_1]
   \<and> fetchAgain (messageHandler (notification view_g1) (fetchAgain view_g1) note_2 view_g1)
   \<and> selectedChatCompare view_g1 \<noteq> Some (cm_chat note_1)
   \<and> note_1 \<in> set (notification view_g1)
   \<and> messageHandler (notification view_g1) (fetchAgain view_g1) note_1 view_g1 = view_g1"
proof -
  have h1: "selectedChatCompare view_g1 = Some (cm_chat reply_3)"
    by (simp add: view_g1_def reply_3_def)
  have h2: "selectedChatCompare view_g1 \<noteq> Some (cm_chat note_2)"
    by (simp add: view_g1_def note_2_def)
  have h3: "cm_id note_2 \<notin> set (map cm_id (notification view_g1))"
    and h3': "obj note_2 \<notin> set (map obj (notification view_g1))"
    by (simp_all add: view_g1_def note_1_def note_2_def)
  have h4: "selectedChatCompare view_g1 \<noteq> Some (cm_chat note_1)"
    by (simp add: view_g1_def note_1_def)
  have h5: "note_1 \<in> set (notification view_g1)"
    by (simp add: view_g1_def)
  have v: "messages view_g1 = []" "notification view_g1 = [note_1]" "\<not> fetchAgain view_g1"
    by (simp_all add: view_g1_def)
  have a: "messageHandler [] True reply_3 view_g1 = view_g1\<lparr>messages := messages view_g1 @ [reply_3]\<rparr>"
    using messageHandler_routes[of view_g1 reply_3 "[]" True] h1 by blast
  have b: "messageHandler (notification view_g1) (fetchAgain view_g1) note_2 view_g1 =
        view_g1\<lparr>notification := note_2 # notification view_g1, fetchAgain := \<not> fetchAgain view_g1\<rparr>"
    using messageHandler_routes[of view_g1 note_2 "[]" True] h2 h3 h3' by blast
  have c: "messageHandler (notification view_g1) (fetchAgain view_g1) note_1 view_g1 = view_g1"
    using messageHandler_routes[of view_g1 note_1 "[]" True] h4 h5 by blast
  have a': "messages (messageHandler [] True reply_3 view_g1) = [reply_3]"
    unfolding a using v by simp
  have b': "notification (messageHandler (notification view_g1) (fetchAgain view_g1) note_2 view_g1)
       = [note_2, note_1]"
    "fetchAgain (messageHandler (notification view_g1) (fetchAgain view_g1) note_2 view_g1)"
    unfolding b using v by simp_all
  show ?thesis
    using h1 h2 h3 h3' h4 h5 a' b' c by blast
qed

section \<open>The send path of the client\<close>

lemma trim_nonempty: "trim s \<noteq> [] \<Longrightarrow> s \<noteq> []"
  by (auto simp: trim_def)

text \<open>
  Claim C10. The key handler \<^verbatim>\<open>sendMessage\<close> of the client posts only when the key is
  \<^verbatim>\<open>Enter\<close> and the input is non-empty after trimming; what it posts is the input, which
  is then non-empty, for the open chat; and it does post in that case. On every other
  key event the state (the message list and the input with it) is unchanged and
  nothing is sent.
\<close>

theorem client_posts_only_nonblank_on_Enter:
  "(Post p i \<in> set (snd (sendMessage_client key chatId post st)) \<longrightarrow>
      key = ''Enter'' \<and> trim (newMessage st) \<noteq> [] \<and> p = newMessage st \<and> p \<noteq> [] \<and> i = chatId)
   \<and> (key = ''Enter'' \<and> trim (newMessage st) \<noteq> [] \<longrightarrow>
      Post (newMessage st) chatId \<in> set (snd (sendMessage_client key chatId post st)))
   \<and> (\<not> (key = ''Enter'' \<and> trim (newMessage st) \<noteq> []) \<longrightarrow>
      sendMessage_client key chatId post st = (st, []))"
  using trim_nonempty[of "newMessage st"]
  by (auto simp: sendMessage_client_def split: option.splits if_splits)

theorem client_posts_only_nonblank_on_Enter_witness:
  "trim (newMessage view_g1) \<noteq> []
   \<and> Post (newMessage view_g1) ''g1'' \<in> set (snd (sendMessage_client ''Enter'' ''g1'' post_ok view_g1))
   \<and> newMessage view_g1 \<noteq> []
   \<and> ''a'' \<noteq> ''Enter''
   \<and> sendMessage_client ''a'' ''g1'' post_ok view_g1 = (view_g1, [])
   \<and> trim (newMessage view_blank) = []
   \<and> sendMessage_client ''Enter'' ''g1'' post_ok view_blank = (view_blank, [])"
proof -
  have h1: "trim (newMessage view_g1) \<noteq> []"
    by (simp add: view_g1_def trim_def isWhiteSpace_def)
  have h2: "trim (newMessage view_blank) = []"
    by (simp add: view_blank_def trim_def isWhiteSpace_def)
  have h3: "''a'' \<noteq> ''Enter''" by simp
  have a: "Post (newMessage view_g1) ''g1'' \<in> set (snd (sendMessage_client ''Enter'' ''g1'' post_ok view_g1))"
    using client_posts_only_nonblank_on_Enter[of "[]" "[]" "''Enter''" "''g1''" post_ok view_g1] h1
    by blast
  have a': "newMessage view_g1 \<noteq> []"
    using client_posts_only_nonblank_on_Enter[of "newMessage view_g1" "''g1''" "''Enter''" "''g1''"
        post_ok view_g1] a
    by blast
  have b: "sendMessage_client ''a'' ''g1'' post_ok view_g1 = (view_g1, [])"
    using client_posts_only_nonblank_on_Enter[of "[]" "[]" "''a''" "''g1''" post_ok view_g1] h3
    by blast
  have c: "sendMessage_client ''Enter'' ''g1'' post_ok view_blank = (view_blank, [])"
    using client_posts_only_nonblank_on_Enter[of "[]" "[]" "''Enter''" "''g1''" post_ok view_blank] h2
    by blast
  show ?thesis using h1 h2 h3 a a' b c by blast
qed

section \<open>The typing signals\<close>

lemma advance_not_due:
  "typingTimeoutRef (fst w) = Some (d, c) \<Longrightarrow> now < d \<Longrightarrow> advance now w = w"
  by (simp add: advance_def)

lemma advance_idle:
  "typingTimeoutRef (fst w) = None \<Longrightarrow> advance now w = w"
  by (simp add: advance_def)

lemma advance_due:
  "typingTimeoutRef st = Some (d, c) \<Longrightarrow> d \<le> now \<Longrightarrow>
     advance now (st, tr) =
       (st\<lparr>typing := False, typingTimeoutRef := None\<rparr>, tr @ [(d, Emit (StopTyping c))])"
  by (simp add: advance_def typingTimeout_def)

lemma keystroke_first:
  assumes "socketConnected st" "\<not> typing st" "typingTimeoutRef st = None"
  shows "keystroke c (t, v) (st, tr) =
           (st\<lparr>newMessage := v, typing := True, typingTimeoutRef := Some (t + 3000, c)\<rparr>,
            tr @ [(t, Emit (Typing c))])"
  using assms by (simp add: keystroke_def advance_idle typingHandler_def)

lemma keystroke_within_burst:
  assumes "socketConnected st" "typing st" "typingTimeoutRef st = Some (t + 3000, c)"
    and "fst k < t + 3000"
  shows "keystroke c k (st, tr) =
           (st\<lparr>newMessage := snd k, typingTimeoutRef := Some (fst k + 3000, c)\<rparr>, tr)"
proof -
  have "advance (fst k) (st, tr) = (st, tr)"
    using advance_not_due[of "(st, tr)" "t + 3000" c "fst k"] assms(3,4) by simp
  then show ?thesis
    using assms(1,2) by (simp add: keystroke_def typingHandler_def)
qed

lemma burst_sends_nothing:
  assumes "socketConnected st" "typing st" "typingTimeoutRef st = Some (t + 3000, c)"
    and "burst t ks"
  shows "\<exists>st'. keystrokes c ks (st, tr) = (st', tr) \<and> socketConnected st' \<and> typing st'
           \<and> typingTimeoutRef st' = Some (last_key t ks + 3000, c)"
  using assms
proof (induction ks arbitrary: st t)
  case Nil
  then show ?case by simp
next
  case (Cons k ks)
  let ?st1 = "st\<lparr>newMessage := snd k, typingTimeoutRef := Some (fst k + 3000, c)\<rparr>"
  have step: "keystroke c k (st, tr) = (?st1, tr)"
    using keystroke_within_burst[OF Cons.prems(1,2,3)] Cons.prems(4) by simp
  have "\<exists>st'. keystrokes c ks (?st1, tr) = (st', tr) \<and> socketConnected st' \<and> typing st'
           \<and> typingTimeoutRef st' = Some (last_key (fst k) ks + 3000, c)"
    using Cons.prems by (intro Cons.IH) simp_all
  then show ?case using step by simp
qed

text \<open>
  \<^verbatim>\<open>typingHandler\<close> returns before it sends anything or sets a timer while the socket is
  not connected: a keystroke at time 0 followed by 3000ms without one sends nothing.
\<close>

theorem typing_unconnected_counterexample:
  "snd (advance 3000 (keystrokes ''g1'' [(0, [104])] (view_unconnected, []))) = []
   \<and> snd (advance 3000 (keystrokes ''g1'' [(0, [104])] (view_unconnected, [])))
       \<noteq> [(0, Emit (Typing ''g1'')), (3000, Emit (StopTyping ''g1''))]"
  by (simp add: advance_def keystroke_def typingHandler_def view_unconnected_def view_g1_def)

text \<open>
  Claim C2, as amended. While the socket is connected, a burst of keystrokes (each less
  than 3000ms after the one before) that starts with the typing flag false and no timer
  pending, followed by at least 3000ms without a keystroke, sends \<^verbatim>\<open>typing\<close> exactly once,
  at the first keystroke, and \<^verbatim>\<open>stop typing\<close> exactly once, 3000ms after the last
  keystroke, and the typing flag is false again. Every keystroke replaces the pending
  timer by one that is due 3000ms later, and a keystroke while the flag is set sends
  nothing. After the unmount cleanup no timer is pending, so \<^verbatim>\<open>stop typing\<close> is not sent.
\<close>

theorem typing_burst_signals:
  assumes "socketConnected st" and "\<not> typing st" and "typingTimeoutRef st = None"
    and "burst t0 ks" and "last_key t0 ks + 3000 \<le> T"
  shows "snd (advance T (keystrokes c ((t0, v0) # ks) (st, tr))) =
           tr @ [(t0, Emit (Typing c)), (last_key t0 ks + 3000, Emit (StopTyping c))]
       \<and> \<not> typing (fst (advance T (keystrokes c ((t0, v0) # ks) (st, tr))))
       \<and> typingTimeoutRef (fst (typingHandler t0 c v0 st)) = Some (t0 + 3000, c)
       \<and> typingTimeoutRef (fst (typingHandler t1 c v1 (fst (typingHandler t0 c v0 st))))
            = Some (t1 + 3000, c)
       \<and> snd (typingHandler t1 c v1 (fst (typingHandler t0 c v0 st))) = []
       \<and> advance T (unmount (fst (keystrokes c ((t0, v0) # ks) (st, tr))),
                     snd (keystrokes c ((t0, v0) # ks) (st, tr)))
            = (unmount (fst (keystrokes c ((t0, v0) # ks) (st, tr))), tr @ [(t0, Emit (Typing c))])"
proof -
  let ?st1 = "st\<lparr>newMessage := v0, typing := True, typingTimeoutRef := Some (t0 + 3000, c)\<rparr>"
  let ?tr1 = "tr @ [(t0, Emit (Typing c))]"
  have first: "keystroke c (t0, v0) (st, tr) = (?st1, ?tr1)"
    using keystroke_first[OF assms(1,2,3)] by simp
  obtain st' where run: "keystrokes c ks (?st1, ?tr1) = (st', ?tr1)"
    and st': "socketConnected st'" "typing st'" "typingTimeoutRef st' = Some (last_key t0 ks + 3000, c)"
    using burst_sends_nothing[of ?st1 t0 c ks ?tr1] assms(1,4) by auto
  have all: "keystrokes c ((t0, v0) # ks) (st, tr) = (st', ?tr1)"
    using first run by simp
  have fin: "advance T (st', ?tr1) =
      (st'\<lparr>typing := False, typingTimeoutRef := None\<rparr>,
       ?tr1 @ [(last_key t0 ks + 3000, Emit (StopTyping c))])"
    using advance_due[OF st'(3) assms(5)] by simp
  have h: "typingHandler t0 c v0 st = (?st1, [Emit (Typing c)])"
    using assms(1,2) by (simp add: typingHandler_def)
  have h2: "typingHandler t1 c v1 ?st1 =
      (?st1\<lparr>newMessage := v1, typingTimeoutRef := Some (t1 + 3000, c)\<rparr>, [])"
    using assms(1) by (simp add: typingHandler_def)
  have un: "advance T (unmount st', ?tr1) = (unmount st', ?tr1)"
    by (simp add: advance_idle unmount_def)
  show ?thesis
    using all fin h h2 un by simp
qed

theorem typing_burst_signals_witness:
  "socketConnected view_g1 \<and> \<not> typing view_g1 \<and> typingTimeoutRef view_g1 = None
   \<and> burst 0 [(1000, [104, 105]), (3500, [104, 105, 33])]
   \<and> last_key 0 [(1000, [104, 105]), (3500, [104, 105, 33])] + 3000 \<le> 6500
   \<and> snd (advance 6500 (keystrokes ''g1'' [(0, [104]), (1000, [104, 105]), (3500, [104, 105, 33])]
             (view_g1, [])))
       = [(0, Emit (Typing ''g1'')), (6500, Emit (StopTyping ''g1''))]"
proof -
  have h1: "socketConnected view_g1" and h2: "\<not> typing view_g1"
    and h3: "typingTimeoutRef view_g1 = None"
    by (simp_all add: view_g1_def)
  have h4: "burst 0 [(1000, [104, 105]), (3500, [104, 105, 33])]" by simp
  have h5: "last_key 0 [(1000, [104, 105]), (3500, [104, 105, 33])] + 3000 \<le> 6500" by simp
  have l: "last_key 0 [(1000, [104, 105]), (3500, [104, 105, 33])] = 3500" by simp
  show ?thesis
    using h1 h2 h3 h4 h5 l
      typing_burst_signals[OF h1 h2 h3 h4 h5, of "''g1''" "[104]" "[]" 0 "[]"]
    by simp
qed

end
